theory Spec2Isabelle
  imports Complex_Main "HOL-Library.Monad_Syntax"
begin

section \<open>Data model (package models)\<close>

text \<open>
  The Go structs of package \<open>models\<close> become records. Several structs share field names
  (\<open>ID\<close>, \<open>Index\<close>, \<open>Role\<close>, ...), so every field carries a short prefix naming its struct.
  Go's \<open>int\<close> and \<open>int64\<close> are modelled as \<open>int\<close>: the code performs no arithmetic on them
  beyond storing \<open>len(a.Choices)\<close>. A pointer that may be \<open>nil\<close> (\<open>*Usage\<close>) and a slice
  whose \<open>nil\<close>-ness the code inspects (\<open>ResponseChoice.ToolCalls\<close>) are options, \<open>None\<close>
  being \<open>nil\<close>.
\<close>

record Usage =
  PromptTokens :: int
  CompletionTokens :: int
  TotalTokens :: int

record ResponseMessage =
  msg_Role :: string
  msg_Content :: string

text \<open>The anonymous struct \<open>Function\<close> of a tool call is flattened into two fields.\<close>

record ResponseToolCall =
  tc_ID :: string
  tc_CallID :: string
  tc_Type :: string
  tc_Function_Name :: string
  tc_Function_Arguments :: string

record ResponseChoice =
  ch_Index :: int
  ch_Message :: ResponseMessage
  ch_FinishReason :: string
  ch_ToolCalls :: "ResponseToolCall list option"

record ResponseResponse =
  r_ID :: string
  r_Object :: string
  r_Created :: int
  r_Model :: string
  r_Choices :: "ResponseChoice list"
  r_Usage :: "Usage option"
  r_OutputText :: string

record ResponseStreamDelta =
  d_Role :: string
  d_Content :: string
  d_ToolCalls :: "ResponseToolCall list"

record ResponseStreamChoice =
  sc_Index :: int
  sc_Delta :: ResponseStreamDelta
  sc_FinishReason :: string

record ResponseStreamResponse =
  sr_ID :: string
  sr_Object :: string
  sr_Created :: int
  sr_Model :: string
  sr_Choices :: "ResponseStreamChoice list"
  sr_Usage :: "Usage option"

section \<open>The accumulator (client/responses.go)\<close>

record ResponsesStreamAccumulator =
  a_ID :: string
  a_Object :: string
  a_Created :: int
  a_Model :: string
  a_Choices :: "ResponseChoice list"
  a_Usage :: "Usage option"

text \<open>The zero value \<open>&ResponsesStreamAccumulator{}\<close> every caller starts from.\<close>

definition new_accumulator :: ResponsesStreamAccumulator where
  "new_accumulator =
     \<lparr>a_ID = '''', a_Object = '''', a_Created = 0, a_Model = '''', a_Choices = [], a_Usage = None\<rparr>"

text \<open>
  The choice literal that \<open>AddChunk\<close> writes in four places:
  \<open>ResponseChoice{Index: i, Message: ResponseMessage{Role: "assistant"}, FinishReason: ""}\<close>.
\<close>

definition default_choice :: "int \<Rightarrow> ResponseChoice" where
  "default_choice i =
     \<lparr>ch_Index = i, ch_Message = \<lparr>msg_Role = ''assistant'', msg_Content = ''''\<rparr>,
      ch_FinishReason = '''', ch_ToolCalls = None\<rparr>"

text \<open>
  The first block of \<open>AddChunk\<close>: the first chunk with a non-empty id sets the four scalar
  fields and replaces the choice slice.
\<close>

definition init_from_chunk ::
  "ResponsesStreamAccumulator \<Rightarrow> ResponseStreamResponse \<Rightarrow> ResponsesStreamAccumulator" where
  "init_from_chunk a chunk =
     (if a_ID a = '''' \<and> sr_ID chunk \<noteq> '''' then
        a\<lparr>a_ID := sr_ID chunk, a_Object := sr_Object chunk, a_Created := sr_Created chunk,
          a_Model := sr_Model chunk,
          a_Choices :=
            (if length (sr_Choices chunk) > 0
             then map (\<lambda>c. default_choice (sc_Index c)) (sr_Choices chunk)
             else [default_choice 0])\<rparr>
      else a)"

definition store_usage ::
  "ResponsesStreamAccumulator \<Rightarrow> ResponseStreamResponse \<Rightarrow> ResponsesStreamAccumulator" where
  "store_usage a chunk = (if sr_Usage chunk \<noteq> None then a\<lparr>a_Usage := sr_Usage chunk\<rparr> else a)"

definition ensure_first_choice ::
  "ResponsesStreamAccumulator \<Rightarrow> ResponseStreamResponse \<Rightarrow> ResponsesStreamAccumulator" where
  "ensure_first_choice a chunk =
     (if length (a_Choices a) = 0 \<and> length (sr_Choices chunk) > 0
      then a\<lparr>a_Choices := [default_choice 0]\<rparr> else a)"

text \<open>The loop \<open>for len(a.Choices) <= choice.Index { a.Choices = append(...) }\<close>.\<close>

function pad_choices :: "ResponseChoice list \<Rightarrow> int \<Rightarrow> ResponseChoice list" where
  "pad_choices cs idx =
     (if int (length cs) \<le> idx
      then pad_choices (cs @ [default_choice (int (length cs))]) idx
      else cs)"
  by pat_completeness auto
termination
  by (relation "measure (\<lambda>(cs, idx). nat (idx + 1 - int (length cs)))") auto

declare pad_choices.simps [simp del]

text \<open>
  An assignment \<open>a.Choices[choice.Index].f = v\<close>. Go checks the index at run time and
  panics when it is negative or not below the length; \<open>None\<close> is that panic.
\<close>

definition update_choice ::
  "ResponseChoice list \<Rightarrow> int \<Rightarrow> (ResponseChoice \<Rightarrow> ResponseChoice) \<Rightarrow> ResponseChoice list option"
  where
  "update_choice cs idx f =
     (if 0 \<le> idx \<and> idx < int (length cs)
      then Some (cs[nat idx := f (cs ! nat idx)])
      else None)"

text \<open>
  The search loop over the existing tool calls: the position of the first one whose
  \<open>ID\<close> equals the delta's, \<open>None\<close> for the source's \<open>toolCallIndex == -1\<close>.
\<close>

fun find_tool_call :: "ResponseToolCall list \<Rightarrow> string \<Rightarrow> nat option" where
  "find_tool_call [] x = None"
| "find_tool_call (t # ts) x =
     (if tc_ID t = x then Some 0 else map_option Suc (find_tool_call ts x))"

text \<open>The three guarded assignments of the branch "Update existing tool call".\<close>

definition update_tool_call :: "ResponseToolCall \<Rightarrow> ResponseToolCall \<Rightarrow> ResponseToolCall" where
  "update_tool_call t d =
     (let t1 = (if tc_Type d \<noteq> '''' then t\<lparr>tc_Type := tc_Type d\<rparr> else t);
          t2 = (if tc_Function_Name d \<noteq> ''''
                then t1\<lparr>tc_Function_Name := tc_Function_Name d\<rparr> else t1)
      in if tc_Function_Arguments d \<noteq> ''''
         then t2\<lparr>tc_Function_Arguments := tc_Function_Arguments d\<rparr> else t2)"

text \<open>One iteration of the loop over \<open>choice.Delta.ToolCalls\<close>, on the choice's own list.\<close>

definition merge_tool_call :: "ResponseToolCall list \<Rightarrow> ResponseToolCall \<Rightarrow> ResponseToolCall list"
  where
  "merge_tool_call tcs d =
     (case find_tool_call tcs (tc_ID d) of
        None \<Rightarrow>
          tcs @ [\<lparr>tc_ID = tc_ID d, tc_CallID = tc_CallID d, tc_Type = tc_Type d,
                  tc_Function_Name = tc_Function_Name d,
                  tc_Function_Arguments = tc_Function_Arguments d\<rparr>]
      | Some k \<Rightarrow> tcs[k := update_tool_call (tcs ! k) d])"

text \<open>
  The same iteration on the accumulator's choices: a \<open>nil\<close> tool call slice is first made
  an empty one, then the delta is merged. Each access indexes \<open>a.Choices[choice.Index]\<close>.
\<close>

definition add_tool_call ::
  "int \<Rightarrow> ResponseChoice list \<Rightarrow> ResponseToolCall \<Rightarrow> ResponseChoice list option" where
  "add_tool_call idx cs d =
     update_choice cs idx
       (\<lambda>c. c\<lparr>ch_ToolCalls :=
                Some (merge_tool_call (case ch_ToolCalls c of None \<Rightarrow> [] | Some tcs \<Rightarrow> tcs) d)\<rparr>)"

text \<open>A range loop whose body may panic: the first panic ends it.\<close>

fun fold_option :: "('s \<Rightarrow> 'x \<Rightarrow> 's option) \<Rightarrow> 's \<Rightarrow> 'x list \<Rightarrow> 's option" where
  "fold_option f s [] = Some s"
| "fold_option f s (x # xs) = (case f s x of None \<Rightarrow> None | Some s' \<Rightarrow> fold_option f s' xs)"

text \<open>The body of the loop \<open>for _, choice := range chunk.Choices\<close>.\<close>

definition add_choice :: "ResponseChoice list \<Rightarrow> ResponseStreamChoice \<Rightarrow> ResponseChoice list option"
  where
  "add_choice cs0 choice = do {
     let idx = sc_Index choice;
     let delta = sc_Delta choice;
     let cs1 = pad_choices cs0 idx;
     cs2 \<leftarrow> (if d_Role delta \<noteq> ''''
             then update_choice cs1 idx
                    (\<lambda>c. c\<lparr>ch_Message := (ch_Message c)\<lparr>msg_Role := d_Role delta\<rparr>\<rparr>)
             else Some cs1);
     cs3 \<leftarrow> (if d_Content delta \<noteq> ''''
             then update_choice cs2 idx
                    (\<lambda>c. c\<lparr>ch_Message :=
                             (ch_Message c)\<lparr>msg_Content := msg_Content (ch_Message c) @ d_Content delta\<rparr>\<rparr>)
             else Some cs2);
     cs4 \<leftarrow> (if length (d_ToolCalls delta) > 0
             then fold_option (add_tool_call idx) cs3 (d_ToolCalls delta)
             else Some cs3);
     (if sc_FinishReason choice \<noteq> ''''
      then update_choice cs4 idx (\<lambda>c. c\<lparr>ch_FinishReason := sc_FinishReason choice\<rparr>)
      else Some cs4)
   }"

text \<open>
  \<open>AddChunk\<close> mutates the accumulator in place and returns nothing; the model returns the
  new accumulator, or \<open>None\<close> when the Go code panics on an index out of range.
\<close>

definition AddChunk ::
  "ResponsesStreamAccumulator \<Rightarrow> ResponseStreamResponse \<Rightarrow> ResponsesStreamAccumulator option"
  where
  "AddChunk a chunk = do {
     let a1 = init_from_chunk a chunk;
     let a2 = store_usage a1 chunk;
     let a3 = ensure_first_choice a2 chunk;
     cs \<leftarrow> fold_option add_choice (a_Choices a3) (sr_Choices chunk);
     Some (a3\<lparr>a_Choices := cs\<rparr>)
   }"

text \<open>Feeding a sequence of chunks to one accumulator, as the callers' receive loops do.\<close>

definition AddChunks ::
  "ResponsesStreamAccumulator \<Rightarrow> ResponseStreamResponse list \<Rightarrow> ResponsesStreamAccumulator option"
  where
  "AddChunks a chunks = fold_option AddChunk a chunks"

text \<open>
  \<open>ToResponse\<close> reads the accumulator through its pointer receiver and builds a new
  document. The model returns the document together with the accumulator as the call
  leaves it.
\<close>

definition ToResponse ::
  "ResponsesStreamAccumulator \<Rightarrow> ResponseResponse \<times> ResponsesStreamAccumulator" where
  "ToResponse a =
     (\<lparr>r_ID = a_ID a, r_Object = a_Object a, r_Created = a_Created a, r_Model = a_Model a,
       r_Choices =
         map (\<lambda>choice.
                \<lparr>ch_Index = ch_Index choice, ch_Message = ch_Message choice,
                 ch_FinishReason = ch_FinishReason choice,
                 ch_ToolCalls =
                   (if length (case ch_ToolCalls choice of None \<Rightarrow> [] | Some tcs \<Rightarrow> tcs) > 0
                    then ch_ToolCalls choice else None)\<rparr>)
             (a_Choices a),
       r_Usage = a_Usage a, r_OutputText = ''''\<rparr>, a)"

section \<open>The event stream (client/responses.go)\<close>

subsection \<open>Decoded JSON values\<close>

text \<open>
  \<open>json.Unmarshal\<close> into a \<open>map[string]interface{}\<close> yields strings, \<open>float64\<close> numbers,
  booleans, \<open>nil\<close>, slices and nested maps. A number is modelled by the real it denotes.
  An object is an association list read with \<open>map_of\<close> (a decoded map holds one value
  for a key, so the list is taken to bind each key once).
\<close>

datatype json =
    JNull
  | JBool bool
  | JNumber real
  | JString string
  | JArray "json list"
  | JObject "(string \<times> json) list"

type_synonym json_object = "(string \<times> json) list"

text \<open>The type assertions \<open>v.(string)\<close>, \<open>v.(float64)\<close> and \<open>v.(map[string]interface{})\<close>
  in their two-result form; a missing key gives \<open>nil\<close>, on which every assertion fails.\<close>

fun as_string :: "json option \<Rightarrow> string option" where
  "as_string (Some (JString x)) = Some x"
| "as_string _ = None"

fun as_float64 :: "json option \<Rightarrow> real option" where
  "as_float64 (Some (JNumber x)) = Some x"
| "as_float64 _ = None"

fun as_object :: "json option \<Rightarrow> json_object option" where
  "as_object (Some (JObject m)) = Some m"
| "as_object _ = None"

text \<open>\<open>x, _ := v.(string)\<close>: the zero value when the assertion fails.\<close>

definition string_or_zero :: "json option \<Rightarrow> string" where
  "string_or_zero v = (case as_string v of Some x \<Rightarrow> x | None \<Rightarrow> [])"

definition float64_or_zero :: "json option \<Rightarrow> real" where
  "float64_or_zero v = (case as_float64 v of Some x \<Rightarrow> x | None \<Rightarrow> 0)"

text \<open>
  The conversions \<open>int(x)\<close> and \<open>int64(x)\<close> of a \<open>float64\<close> discard the fraction. Go leaves
  the result implementation-dependent when the value does not fit the integer type; the
  model keeps the truncated value there.
\<close>

definition int_of_float64 :: "real \<Rightarrow> int" where
  "int_of_float64 x = (if 0 \<le> x then \<lfloor>x\<rfloor> else \<lceil>x\<rceil>)"

subsection \<open>The switch on the event type\<close>

definition zero_tool_call :: ResponseToolCall where
  "zero_tool_call =
     \<lparr>tc_ID = [], tc_CallID = [], tc_Type = [], tc_Function_Name = [],
      tc_Function_Arguments = []\<rparr>"

definition zero_response :: ResponseStreamResponse where
  "zero_response =
     \<lparr>sr_ID = [], sr_Object = [], sr_Created = 0, sr_Model = [], sr_Choices = [],
      sr_Usage = None\<rparr>"

text \<open>The slice literal every tool call case assigns to \<open>response.Choices\<close>: one choice at
  the given index (the source passes \<open>int(index)\<close>) whose delta holds one tool call.\<close>

definition tool_call_choices :: "int \<Rightarrow> ResponseToolCall \<Rightarrow> ResponseStreamChoice list" where
  "tool_call_choices index toolCall =
     [\<lparr>sc_Index = index,
       sc_Delta = \<lparr>d_Role = [], d_Content = [], d_ToolCalls = [toolCall]\<rparr>,
       sc_FinishReason = []\<rparr>]"

text \<open>The four assignments from \<open>respData\<close>, written twice in the source.\<close>

definition read_identity :: "json_object \<Rightarrow> ResponseStreamResponse \<Rightarrow> ResponseStreamResponse" where
  "read_identity respData response =
     response\<lparr>sr_ID := string_or_zero (map_of respData ''id''),
              sr_Object := string_or_zero (map_of respData ''object''),
              sr_Created :=
                (case as_float64 (map_of respData ''created_at'') of
                   Some createdAt \<Rightarrow> int_of_float64 createdAt
                 | None \<Rightarrow> sr_Created response),
              sr_Model := string_or_zero (map_of respData ''model'')\<rparr>"

definition read_usage :: "json_object \<Rightarrow> ResponseStreamResponse \<Rightarrow> ResponseStreamResponse" where
  "read_usage respData response =
     (case as_object (map_of respData ''usage'') of
        Some usageData \<Rightarrow>
          response\<lparr>sr_Usage :=
            Some \<lparr>PromptTokens = int_of_float64 (float64_or_zero (map_of usageData ''prompt_tokens'')),
                  CompletionTokens =
                    int_of_float64 (float64_or_zero (map_of usageData ''completion_tokens'')),
                  TotalTokens = int_of_float64 (float64_or_zero (map_of usageData ''total_tokens''))\<rparr>\<rparr>
      | None \<Rightarrow> response)"

text \<open>The cases \<open>response.output_item.added\<close> (\<open>with_arguments = False\<close>) and
  \<open>response.output_item.done\<close> (\<open>with_arguments = True\<close>), which differ in one assignment.\<close>

definition output_item_event :: "bool \<Rightarrow> json_object \<Rightarrow> ResponseStreamResponse" where
  "output_item_event with_arguments eventData =
     (case as_object (map_of eventData ''item'') of
        None \<Rightarrow> zero_response
      | Some item \<Rightarrow>
          (case as_float64 (map_of eventData ''output_index'') of
             None \<Rightarrow> zero_response
           | Some index \<Rightarrow>
               if string_or_zero (map_of item ''type'') = ''function_call''
               then zero_response\<lparr>sr_Choices :=
                      tool_call_choices (int_of_float64 index)
                        \<lparr>tc_ID = string_or_zero (map_of item ''id''),
                         tc_CallID = string_or_zero (map_of item ''call_id''),
                         tc_Type = ''function'',
                         tc_Function_Name = string_or_zero (map_of item ''name''),
                         tc_Function_Arguments =
                           (if with_arguments then string_or_zero (map_of item ''arguments'')
                            else [])\<rparr>\<rparr>
               else zero_response))"

text \<open>The cases \<open>response.function_call_arguments.delta\<close> (payload key \<open>delta\<close>) and
  \<open>response.function_call_arguments.done\<close> (payload key \<open>arguments\<close>).\<close>

definition arguments_event :: "string \<Rightarrow> json_object \<Rightarrow> ResponseStreamResponse" where
  "arguments_event key eventData =
     (case as_string (map_of eventData key) of
        None \<Rightarrow> zero_response
      | Some arguments \<Rightarrow>
          (case as_float64 (map_of eventData ''output_index'') of
             None \<Rightarrow> zero_response
           | Some index \<Rightarrow>
               (case as_string (map_of eventData ''item_id'') of
                  None \<Rightarrow> zero_response
                | Some itemID \<Rightarrow>
                    zero_response\<lparr>sr_Choices :=
                      tool_call_choices (int_of_float64 index)
                        (zero_tool_call\<lparr>tc_ID := itemID, tc_Function_Arguments := arguments\<rparr>)\<rparr>)))"

text \<open>
  The whole \<open>switch eventType\<close>. The result is the response object built, paired with
  whether the case executed \<open>s.err = io.EOF\<close> (only the terminal events do).
\<close>

definition decode_event :: "json_object \<Rightarrow> ResponseStreamResponse \<times> bool" where
  "decode_event eventData =
     (let eventType = string_or_zero (map_of eventData ''type'') in
      if eventType = ''response.created'' \<or> eventType = ''response.in_progress'' then
        (case as_object (map_of eventData ''response'') of
           Some respData \<Rightarrow> (read_identity respData zero_response, False)
         | None \<Rightarrow> (zero_response, False))
      else if eventType = ''response.output_text.delta'' then
        (zero_response\<lparr>sr_Choices :=
           [\<lparr>sc_Index = 0,
             sc_Delta = \<lparr>d_Role = [], d_Content = string_or_zero (map_of eventData ''delta''),
                         d_ToolCalls = []\<rparr>,
             sc_FinishReason = []\<rparr>]\<rparr>, False)
      else if eventType = ''response.output_item.added'' then
        (output_item_event False eventData, False)
      else if eventType = ''response.output_item.done'' then
        (output_item_event True eventData, False)
      else if eventType = ''response.file_search_call.in_progress''
              \<or> eventType = ''response.file_search_call.searching''
              \<or> eventType = ''response.file_search_call.completed'' then
        (case as_float64 (map_of eventData ''output_index'') of
           None \<Rightarrow> (zero_response, False)
         | Some index \<Rightarrow>
             (case as_string (map_of eventData ''item_id'') of
                None \<Rightarrow> (zero_response, False)
              | Some itemID \<Rightarrow>
                  (zero_response\<lparr>sr_Choices :=
                     tool_call_choices (int_of_float64 index)
                       (zero_tool_call\<lparr>tc_ID := itemID, tc_Type := ''file_search''\<rparr>)\<rparr>, False)))
      else if eventType = ''response.tool_call.created''
              \<or> eventType = ''response.tool_call.in_progress'' then
        (case as_float64 (map_of eventData ''output_index'') of
           None \<Rightarrow> (zero_response, False)
         | Some index \<Rightarrow>
             (zero_response\<lparr>sr_Choices := tool_call_choices (int_of_float64 index) zero_tool_call\<rparr>, False))
      else if eventType = ''response.tool_call.id'' then
        (case as_string (map_of eventData ''id'') of
           None \<Rightarrow> (zero_response, False)
         | Some toolCallID \<Rightarrow>
             (case as_float64 (map_of eventData ''output_index'') of
                None \<Rightarrow> (zero_response, False)
              | Some index \<Rightarrow>
                  (zero_response\<lparr>sr_Choices :=
                     tool_call_choices (int_of_float64 index) (zero_tool_call\<lparr>tc_ID := toolCallID\<rparr>)\<rparr>, False)))
      else if eventType = ''response.function_call_arguments.delta'' then
        (arguments_event ''delta'' eventData, False)
      else if eventType = ''response.function_call_arguments.done'' then
        (arguments_event ''arguments'' eventData, False)
      else if eventType = ''response.completed'' \<or> eventType = ''response.incomplete'' then
        (case as_object (map_of eventData ''response'') of
           Some respData \<Rightarrow> (read_usage respData (read_identity respData zero_response), True)
         | None \<Rightarrow> (zero_response, True))
      else (zero_response, False))"

subsection \<open>Recv\<close>

text \<open>
  \<open>io.EOF\<close>, a read error of the transport and an error of \<open>json.Unmarshal\<close>, the latter
  two with their message.
\<close>

datatype error = EOF | ReadError string | UnmarshalError string

text \<open>
  The stream state. \<open>reader\<close> holds the lines the \<open>bufio.Reader\<close> will still deliver, each
  as \<open>ReadString\<close> returns it; once they are used up the read fails, with \<open>io.EOF\<close>
  when \<open>reader_failure\<close> is \<open>None\<close> and with a transport error otherwise. (Whatever
  \<open>ReadString\<close> returns together with an error is dropped by \<open>Recv\<close>, so it is not
  modelled.) The body is taken to be finite. \<open>err\<close> is the field \<open>s.err\<close>, \<open>None\<close> for
  \<open>nil\<close>.
\<close>

record ResponsesStream =
  reader :: "string list"
  reader_failure :: "string option"
  err :: "error option"

text \<open>
  \<open>strings.TrimSpace\<close>, \<open>strings.HasPrefix\<close> and \<open>strings.TrimPrefix\<close> on byte strings.
  The white space is the ASCII one; Unicode spaces beyond ASCII, which take several bytes,
  are not modelled.
\<close>

definition isSpace :: "char \<Rightarrow> bool" where
  "isSpace c \<longleftrightarrow> c \<in> {CHR 0x09, CHR 0x0A, CHR 0x0B, CHR 0x0C, CHR 0x0D, CHR '' ''}"

definition TrimSpace :: "string \<Rightarrow> string" where
  "TrimSpace x = rev (dropWhile isSpace (rev (dropWhile isSpace x)))"

definition HasPrefix :: "string \<Rightarrow> string \<Rightarrow> bool" where
  "HasPrefix x p \<longleftrightarrow> take (length p) x = p"

definition TrimPrefix :: "string \<Rightarrow> string \<Rightarrow> string" where
  "TrimPrefix x p = (if HasPrefix x p then drop (length p) x else x)"

definition data_prefix :: string where
  "data_prefix = ''data: ''"

text \<open>The test that ends \<open>Recv\<close>: "Skip events that don't contain useful data".\<close>

definition no_useful_data :: "ResponseStreamResponse \<Rightarrow> bool" where
  "no_useful_data response \<longleftrightarrow>
     length (sr_Choices response) = 0 \<and> sr_ID response = [] \<and> sr_Usage response = None"

text \<open>
  \<open>Recv\<close> returns \<open>(nil, err)\<close> or \<open>(response, nil)\<close>: a sum, next to the stream state it
  leaves. \<open>json.Unmarshal\<close> belongs to the Go library and is a parameter: it gives the
  decoded object, or its error message. Every recursive call has consumed a line.
\<close>

function Recv ::
  "(string \<Rightarrow> string + json_object) \<Rightarrow> ResponsesStream
     \<Rightarrow> (error + ResponseStreamResponse) \<times> ResponsesStream" where
  "Recv unmarshal s =
     (case err s of
        Some e \<Rightarrow> (Inl e, s)
      | None \<Rightarrow>
          (case reader s of
             [] \<Rightarrow>
               (let e = (case reader_failure s of None \<Rightarrow> EOF | Some m \<Rightarrow> ReadError m)
                in (Inl e, s\<lparr>err := Some e\<rparr>))
           | l # ls \<Rightarrow>
               (let s1 = s\<lparr>reader := ls\<rparr>; line = TrimSpace l in
                if line = [] then Recv unmarshal s1
                else if \<not> HasPrefix line data_prefix then Recv unmarshal s1
                else
                  (let data = TrimPrefix line data_prefix in
                   if data = ''[DONE]'' then (Inl EOF, s1\<lparr>err := Some EOF\<rparr>)
                   else
                     (case unmarshal data of
                        Inl m \<Rightarrow> (Inl (UnmarshalError m), s1\<lparr>err := Some (UnmarshalError m)\<rparr>)
                      | Inr eventData \<Rightarrow>
                          (let response = fst (decode_event eventData);
                               s2 = (if snd (decode_event eventData)
                                     then s1\<lparr>err := Some EOF\<rparr> else s1)
                           in if no_useful_data response then Recv unmarshal s2
                              else (Inr response, s2)))))))"
  by pat_completeness auto
termination
  by (relation "measure (\<lambda>(u, s). length (reader s))") auto

declare Recv.simps [simp del]

text \<open>\<open>Err\<close>: the last error, with \<open>io.EOF\<close> reported as none.\<close>

definition Err :: "ResponsesStream \<Rightarrow> error option" where
  "Err s = (if err s = Some EOF then None else err s)"

section \<open>Observations and closed forms used in the statements\<close>

text \<open>The tool calls of a choice, with \<open>nil\<close> read as the empty slice (\<open>len\<close> and \<open>range\<close>
  do so).\<close>

definition tools :: "ResponseChoice \<Rightarrow> ResponseToolCall list" where
  "tools c = (case ch_ToolCalls c of None \<Rightarrow> [] | Some tcs \<Rightarrow> tcs)"

text \<open>The choice at a position, or the freshly defaulted one the padding loop would put
  there.\<close>

definition slot_or_default :: "ResponseChoice list \<Rightarrow> nat \<Rightarrow> ResponseChoice" where
  "slot_or_default cs n = (if n < length cs then cs ! n else default_choice (int n))"

text \<open>The choice sequence extended with defaulted slots until position \<open>n\<close> is in range.\<close>

definition padded_choices :: "ResponseChoice list \<Rightarrow> nat \<Rightarrow> ResponseChoice list" where
  "padded_choices cs n = map (slot_or_default cs) [0 ..< max (length cs) (Suc n)]"

text \<open>What the body of the loop over \<open>chunk.Choices\<close> leaves in the slot it addresses.\<close>

definition merged_slot :: "ResponseChoice \<Rightarrow> ResponseStreamChoice \<Rightarrow> ResponseChoice" where
  "merged_slot c choice =
     \<lparr>ch_Index = ch_Index c,
      ch_Message =
        \<lparr>msg_Role = (if d_Role (sc_Delta choice) \<noteq> [] then d_Role (sc_Delta choice)
                      else msg_Role (ch_Message c)),
         msg_Content = msg_Content (ch_Message c) @ d_Content (sc_Delta choice)\<rparr>,
      ch_FinishReason = (if sc_FinishReason choice \<noteq> [] then sc_FinishReason choice
                         else ch_FinishReason c),
      ch_ToolCalls = (if d_ToolCalls (sc_Delta choice) = [] then ch_ToolCalls c
                      else Some (foldl merge_tool_call (tools c) (d_ToolCalls (sc_Delta choice))))\<rparr>"

text \<open>The content buffer and the tool calls of the choice at a position (empty while the
  position does not exist yet).\<close>

definition content_of :: "ResponsesStreamAccumulator \<Rightarrow> nat \<Rightarrow> string" where
  "content_of a n = msg_Content (ch_Message (slot_or_default (a_Choices a) n))"

definition tool_calls_of :: "ResponsesStreamAccumulator \<Rightarrow> nat \<Rightarrow> ResponseToolCall list" where
  "tool_calls_of a n = tools (slot_or_default (a_Choices a) n)"

text \<open>The tool call slot an identity is reconciled with: the first one carrying it.\<close>

definition lookup_tool_call :: "ResponseToolCall list \<Rightarrow> string \<Rightarrow> ResponseToolCall option" where
  "lookup_tool_call tcs x =
     (case find_tool_call tcs x of None \<Rightarrow> None | Some k \<Rightarrow> Some (tcs ! k))"

definition arguments_of :: "ResponsesStreamAccumulator \<Rightarrow> nat \<Rightarrow> string \<Rightarrow> string option" where
  "arguments_of a n x = map_option tc_Function_Arguments (lookup_tool_call (tool_calls_of a n) x)"

definition name_of :: "ResponsesStreamAccumulator \<Rightarrow> nat \<Rightarrow> string \<Rightarrow> string option" where
  "name_of a n x = map_option tc_Function_Name (lookup_tool_call (tool_calls_of a n) x)"

text \<open>
  The response objects \<open>Recv\<close> builds for a text delta (the source always uses index 0)
  and for an event carrying one tool call, with the choice index left open.
\<close>

definition text_delta_chunk :: "int \<Rightarrow> string \<Rightarrow> ResponseStreamResponse" where
  "text_delta_chunk idx fragment =
     zero_response\<lparr>sr_Choices :=
       [\<lparr>sc_Index = idx,
         sc_Delta = \<lparr>d_Role = [], d_Content = fragment, d_ToolCalls = []\<rparr>,
         sc_FinishReason = []\<rparr>]\<rparr>"

definition tool_call_chunk :: "int \<Rightarrow> ResponseToolCall \<Rightarrow> ResponseStreamResponse" where
  "tool_call_chunk idx toolCall = zero_response\<lparr>sr_Choices := tool_call_choices idx toolCall\<rparr>"

text \<open>The tool call that both function-call-arguments events put in their chunk.\<close>

definition arguments_tool_call :: "string \<Rightarrow> string \<Rightarrow> ResponseToolCall" where
  "arguments_tool_call itemID arguments =
     zero_tool_call\<lparr>tc_ID := itemID, tc_Function_Arguments := arguments\<rparr>"

text \<open>
  A stand-in for \<open>json.Unmarshal\<close> on concrete inputs: a finite table of payloads with
  the objects they decode to; every other payload is a syntax error.
\<close>

definition unmarshal_table :: "(string \<times> json_object) list \<Rightarrow> string \<Rightarrow> string + json_object" where
  "unmarshal_table table data =
     (case map_of table data of Some obj \<Rightarrow> Inr obj | None \<Rightarrow> Inl ''invalid character'')"


section \<open>The chunks built from the events\<close>

lemma int_of_float64_of_int [simp]: "int_of_float64 (of_int k) = k"
  by (simp add: int_of_float64_def)


lemma arguments_event_chunk:
  assumes "as_string (map_of eventData key) = Some payload"
    and "as_float64 (map_of eventData ''output_index'') = Some index"
    and "as_string (map_of eventData ''item_id'') = Some itemID"
  shows "arguments_event key eventData =
           tool_call_chunk (int_of_float64 index) (arguments_tool_call itemID payload)"
  using assms by (simp add: arguments_event_def tool_call_chunk_def arguments_tool_call_def)

lemma decode_event_arguments:
  "string_or_zero (map_of eventData ''type'') = ''response.function_call_arguments.delta'' \<Longrightarrow>
   decode_event eventData = (arguments_event ''delta'' eventData, False)"
  "string_or_zero (map_of eventData ''type'') = ''response.function_call_arguments.done'' \<Longrightarrow>
   decode_event eventData = (arguments_event ''arguments'' eventData, False)"
  by (simp_all add: decode_event_def)

lemma output_item_event_chunk:
  assumes "as_object (map_of eventData ''item'') = Some item"
    and "as_float64 (map_of eventData ''output_index'') = Some index"
    and "string_or_zero (map_of item ''type'') = ''function_call''"
  shows "output_item_event with_arguments eventData =
           tool_call_chunk (int_of_float64 index)
             \<lparr>tc_ID = string_or_zero (map_of item ''id''),
              tc_CallID = string_or_zero (map_of item ''call_id''),
              tc_Type = ''function'',
              tc_Function_Name = string_or_zero (map_of item ''name''),
              tc_Function_Arguments =
                (if with_arguments then string_or_zero (map_of item ''arguments'') else [])\<rparr>"
  using assms by (simp add: output_item_event_def tool_call_chunk_def)

lemma decode_event_output_item:
  "string_or_zero (map_of eventData ''type'') = ''response.output_item.added'' \<Longrightarrow>
   decode_event eventData = (output_item_event False eventData, False)"
  "string_or_zero (map_of eventData ''type'') = ''response.output_item.done'' \<Longrightarrow>
   decode_event eventData = (output_item_event True eventData, False)"
  by (simp_all add: decode_event_def)

lemma event_chunk_shape_aux:
  "sr_Choices zero_response = []"
  "sr_ID (zero_response\<lparr>sr_Choices := cs\<rparr>) = []"
  "sr_Choices (zero_response\<lparr>sr_Choices := cs\<rparr>) = cs"
  "sr_Choices (read_identity r zero_response) = []"
  "sr_Choices (read_usage r (read_identity r zero_response)) = []"
  "\<exists>choice. tool_call_choices idx d = [choice]"
  by (simp_all add: zero_response_def read_identity_def read_usage_def tool_call_choices_def
      split: option.splits)

lemma output_item_event_shape:
  "sr_Choices (output_item_event b eventData) = [] \<or>
   sr_ID (output_item_event b eventData) = [] \<and>
   (\<exists>choice. sr_Choices (output_item_event b eventData) = [choice])"
  by (simp add: output_item_event_def event_chunk_shape_aux split: option.splits)

lemma arguments_event_shape:
  "sr_Choices (arguments_event key eventData) = [] \<or>
   sr_ID (arguments_event key eventData) = [] \<and>
   (\<exists>choice. sr_Choices (arguments_event key eventData) = [choice])"
  by (simp add: arguments_event_def event_chunk_shape_aux split: option.splits)

lemma decode_event_shape:
  "sr_Choices (fst (decode_event eventData)) = [] \<or>
   sr_ID (fst (decode_event eventData)) = [] \<and>
   (\<exists>choice. sr_Choices (fst (decode_event eventData)) = [choice])"
  unfolding decode_event_def Let_def
  using output_item_event_shape [of False eventData] output_item_event_shape [of True eventData]
    arguments_event_shape [of "''delta''" eventData]
    arguments_event_shape [of "''arguments''" eventData]
  by (simp add: event_chunk_shape_aux split: option.splits)



section \<open>Recv, line by line\<close>

lemma Recv_after_error: "err s = Some e \<Longrightarrow> Recv unmarshal s = (Inl e, s)"
  by (subst Recv.simps) simp

lemma Recv_end_of_data:
  "err s = None \<Longrightarrow> reader s = [] \<Longrightarrow>
   Recv unmarshal s =
     (Inl (case reader_failure s of None \<Rightarrow> EOF | Some m \<Rightarrow> ReadError m),
      s\<lparr>err := Some (case reader_failure s of None \<Rightarrow> EOF | Some m \<Rightarrow> ReadError m)\<rparr>)"
  by (subst Recv.simps) (simp add: Let_def)

lemma Recv_skips_line:
  "err s = None \<Longrightarrow> reader s = l # ls \<Longrightarrow>
   TrimSpace l = [] \<or> \<not> HasPrefix (TrimSpace l) data_prefix \<Longrightarrow>
   Recv unmarshal s = Recv unmarshal (s\<lparr>reader := ls\<rparr>)"
  by (subst Recv.simps) (auto simp: Let_def)

lemma prefix_split:
  "data_prefix @ data \<noteq> []"
  "HasPrefix (data_prefix @ data) data_prefix" "TrimPrefix (data_prefix @ data) data_prefix = data"
  by (simp_all add: HasPrefix_def TrimPrefix_def data_prefix_def)

lemma Recv_data_line:
  assumes "err s = None" and "reader s = l # ls" and "TrimSpace l = data_prefix @ data"
  shows "Recv unmarshal s =
     (if data = ''[DONE]'' then (Inl EOF, s\<lparr>reader := ls, err := Some EOF\<rparr>)
      else
        (case unmarshal data of
           Inl m \<Rightarrow> (Inl (UnmarshalError m), s\<lparr>reader := ls, err := Some (UnmarshalError m)\<rparr>)
         | Inr eventData \<Rightarrow>
             if no_useful_data (fst (decode_event eventData))
             then Recv unmarshal
                    (if snd (decode_event eventData) then s\<lparr>reader := ls, err := Some EOF\<rparr>
                     else s\<lparr>reader := ls\<rparr>)
             else (Inr (fst (decode_event eventData)),
                   if snd (decode_event eventData) then s\<lparr>reader := ls, err := Some EOF\<rparr>
                   else s\<lparr>reader := ls\<rparr>)))"
proof -
  have ne: "TrimSpace l \<noteq> []" and hp: "HasPrefix (TrimSpace l) data_prefix"
    and tp: "TrimPrefix (TrimSpace l) data_prefix = data"
    unfolding assms(3) by (rule prefix_split)+
  show ?thesis
    by (subst Recv.simps) (simp add: assms(1,2) Let_def ne hp tp split: sum.splits)
qed

section \<open>The padding loop and the merge of one choice\<close>

lemma pad_choices_eq:
  "pad_choices cs idx = cs @ map (\<lambda>k. default_choice (int k)) [length cs ..< nat (idx + 1)]"
proof (induction cs idx rule: pad_choices.induct)
  case (1 cs idx)
  show ?case
  proof (cases "int (length cs) \<le> idx")
    case True
    then have lt: "length cs < nat (idx + 1)" by linarith
    have "pad_choices cs idx = pad_choices (cs @ [default_choice (int (length cs))]) idx"
      using True by (subst pad_choices.simps) simp
    also have "\<dots> = (cs @ [default_choice (int (length cs))]) @
        map (\<lambda>k. default_choice (int k)) [Suc (length cs) ..< nat (idx + 1)]"
      using "1.IH" [OF True] by simp
    also have "\<dots> = cs @ map (\<lambda>k. default_choice (int k)) [length cs ..< nat (idx + 1)]"
      using lt by (simp add: upt_conv_Cons)
    finally show ?thesis .
  next
    case False
    then have "nat (idx + 1) \<le> length cs" by linarith
    with False show ?thesis by (subst pad_choices.simps) simp
  qed
qed

lemma length_pad_choices:
  "length (pad_choices cs idx) = max (length cs) (nat (idx + 1))"
  by (simp add: pad_choices_eq)

lemma nth_pad_choices:
  "j < length (pad_choices cs idx) \<Longrightarrow> pad_choices cs idx ! j = slot_or_default cs j"
  by (auto simp: pad_choices_eq nth_append slot_or_default_def)

lemma pad_choices_negative: "idx < 0 \<Longrightarrow> pad_choices cs idx = cs"
  by (subst pad_choices.simps) simp

lemma update_choice_nat:
  "n < length cs \<Longrightarrow> update_choice cs (int n) f = Some (cs[n := f (cs ! n)])"
  by (simp add: update_choice_def)

lemma update_choice_negative: "idx < 0 \<Longrightarrow> update_choice cs idx f = None"
  by (simp add: update_choice_def)

lemma add_tool_call_length:
  "add_tool_call idx cs d = Some cs' \<Longrightarrow> length cs' = length cs"
  by (auto simp: add_tool_call_def update_choice_def split: if_splits)

lemma fold_add_tool_call_length:
  "fold_option (add_tool_call idx) cs ds = Some cs' \<Longrightarrow> length cs' = length cs"
  by (induction ds arbitrary: cs) (auto split: option.splits dest: add_tool_call_length)

lemma fold_add_tool_call:
  "n < length cs \<Longrightarrow> ds \<noteq> [] \<Longrightarrow>
   fold_option (add_tool_call (int n)) cs ds =
     Some (cs[n := (cs ! n)\<lparr>ch_ToolCalls := Some (foldl merge_tool_call (tools (cs ! n)) ds)\<rparr>])"
proof (induction ds arbitrary: cs)
  case Nil
  then show ?case by simp
next
  case (Cons d ds)
  show ?case
  proof (cases "ds = []")
    case True
    with Cons.prems show ?thesis
      by (simp add: add_tool_call_def update_choice_nat tools_def)
  next
    case False
    let ?cs1 = "cs[n := (cs ! n)\<lparr>ch_ToolCalls := Some (merge_tool_call (tools (cs ! n)) d)\<rparr>]"
    have step: "add_tool_call (int n) cs d = Some ?cs1"
      using Cons.prems by (simp add: add_tool_call_def update_choice_nat tools_def)
    have len: "n < length ?cs1" using Cons.prems by simp
    show ?thesis
      using Cons.IH [OF len False] Cons.prems step by (simp add: tools_def)
  qed
qed

lemma tools_update [simp]:
  "tools (c\<lparr>ch_Message := m\<rparr>) = tools c"
  "tools (c\<lparr>ch_FinishReason := r\<rparr>) = tools c"
  "tools (c\<lparr>ch_ToolCalls := Some tcs\<rparr>) = tcs"
  by (simp_all add: tools_def)

lemma add_choice_nat:
  assumes "sc_Index choice = int n"
  shows "add_choice cs choice =
           Some ((pad_choices cs (int n))[n := merged_slot (pad_choices cs (int n) ! n) choice])"
proof -
  let ?p = "pad_choices cs (int n)"
  have n: "n < length ?p" by (simp add: length_pad_choices)
  obtain i m r t where c: "?p ! n = \<lparr>ch_Index = i, ch_Message = m, ch_FinishReason = r, ch_ToolCalls = t\<rparr>"
    by (cases "?p ! n") auto
  obtain ro co where m: "m = \<lparr>msg_Role = ro, msg_Content = co\<rparr>"
    by (cases m) auto
  have same: "?p[n := \<lparr>ch_Index = i, ch_Message = \<lparr>msg_Role = ro, msg_Content = co\<rparr>,
                         ch_FinishReason = r, ch_ToolCalls = t\<rparr>] = ?p"
    using c m list_update_id [of ?p n] by simp
  show ?thesis
    using n assms
    by (simp add: add_choice_def Let_def update_choice_nat fold_add_tool_call merged_slot_def
        c m tools_def same)
qed

lemma add_choice_length:
  "add_choice cs choice = Some cs' \<Longrightarrow> length cs \<le> length cs'"
  by (auto simp: add_choice_def Let_def update_choice_def length_pad_choices
      split: if_splits Option.bind_splits dest!: fold_add_tool_call_length)

lemma add_choice_total:
  "0 \<le> sc_Index choice \<Longrightarrow> \<exists>cs'. add_choice cs choice = Some cs'"
  using add_choice_nat [of choice "nat (sc_Index choice)" cs] by simp

lemma pad_choices_padded:
  "pad_choices (if cs = [] then [default_choice 0] else cs) (int n) = padded_choices cs n"
proof (rule nth_equalityI)
  show len: "length (pad_choices (if cs = [] then [default_choice 0] else cs) (int n)) =
        length (padded_choices cs n)"
    by (auto simp: length_pad_choices padded_choices_def nat_add_distrib)
  fix j
  assume "j < length (pad_choices (if cs = [] then [default_choice 0] else cs) (int n))"
  then show "pad_choices (if cs = [] then [default_choice 0] else cs) (int n) ! j =
      padded_choices cs n ! j"
    unfolding len
    by (auto simp: pad_choices_eq padded_choices_def nth_append slot_or_default_def)
qed

lemma pad_choices_padded_nonempty:
  "cs \<noteq> [] \<Longrightarrow> pad_choices cs (int n) = padded_choices cs n"
  using pad_choices_padded [of cs n] by simp

lemma length_padded_choices [simp]:
  "length (padded_choices cs n) = max (length cs) (Suc n)"
  by (simp add: padded_choices_def)

lemma nth_padded_choices [simp]:
  "j < max (length cs) (Suc n) \<Longrightarrow> padded_choices cs n ! j = slot_or_default cs j"
  by (simp add: padded_choices_def)

lemma AddChunk_single_choice:
  assumes "a_ID a \<noteq> [] \<or> sr_ID c = []" and "sr_Choices c = [choice]"
    and "sc_Index choice = int n"
  shows "AddChunk a c =
           Some ((store_usage a c)\<lparr>a_Choices :=
                   (padded_choices (a_Choices a) n)
                     [n := merged_slot (slot_or_default (a_Choices a) n) choice]\<rparr>)"
proof -
  have init: "init_from_chunk a c = a"
    using assms(1) by (auto simp: init_from_chunk_def)
  have cs: "a_Choices (ensure_first_choice (store_usage a c) c) =
      (if a_Choices a = [] then [default_choice 0] else a_Choices a)"
    using assms(2) by (simp add: ensure_first_choice_def store_usage_def)
  have upd: "(ensure_first_choice (store_usage a c) c)\<lparr>a_Choices := xs\<rparr> =
      (store_usage a c)\<lparr>a_Choices := xs\<rparr>" for xs
    by (simp add: ensure_first_choice_def)
  show ?thesis
    unfolding AddChunk_def Let_def init cs assms(2)
    by (simp add: add_choice_nat [OF assms(3)] pad_choices_padded upd del: if_split
        cong: if_cong) 
qed

lemma store_usage_no_usage [simp]: "sr_Usage c = None \<Longrightarrow> store_usage a c = a"
  by (simp add: store_usage_def)

section \<open>Content deltas\<close>

lemma text_delta_chunk_sel [simp]:
  "sr_ID (text_delta_chunk idx f) = []"
  "sr_Usage (text_delta_chunk idx f) = None"
  by (simp_all add: text_delta_chunk_def zero_response_def)

lemma AddChunk_text_delta:
  "AddChunk a (text_delta_chunk (int n) f) =
     Some (a\<lparr>a_Choices :=
             (padded_choices (a_Choices a) n)
               [n := (slot_or_default (a_Choices a) n)
                  \<lparr>ch_Message := (ch_Message (slot_or_default (a_Choices a) n))
                     \<lparr>msg_Content := content_of a n @ f\<rparr>\<rparr>]\<rparr>)"
proof -
  let ?choice = "\<lparr>sc_Index = int n,
         sc_Delta = \<lparr>d_Role = [], d_Content = f, d_ToolCalls = []\<rparr>,
         sc_FinishReason = []\<rparr>"
  have "AddChunk a (text_delta_chunk (int n) f) =
      Some ((store_usage a (text_delta_chunk (int n) f))\<lparr>a_Choices :=
                   (padded_choices (a_Choices a) n)
                     [n := merged_slot (slot_or_default (a_Choices a) n) ?choice]\<rparr>)"
    by (rule AddChunk_single_choice) (simp_all add: text_delta_chunk_def zero_response_def)
  moreover have "merged_slot c ?choice =
      c\<lparr>ch_Message := (ch_Message c)\<lparr>msg_Content := msg_Content (ch_Message c) @ f\<rparr>\<rparr>" for c
    by (simp add: merged_slot_def)
  ultimately show ?thesis by (simp add: content_of_def)
qed

lemma content_of_AddChunk_text_delta:
  "AddChunk a (text_delta_chunk (int n) f) = Some a' \<Longrightarrow> content_of a' n = content_of a n @ f"
  by (auto simp: AddChunk_text_delta content_of_def slot_or_default_def)

lemma AddChunks_text_deltas:
  "\<exists>a'. AddChunks a (map (text_delta_chunk (int n)) fragments) = Some a' \<and>
        content_of a' n = content_of a n @ concat fragments"
proof (induction fragments arbitrary: a)
  case Nil
  show ?case by (simp add: AddChunks_def)
next
  case (Cons f fragments)
  obtain a1 where a1: "AddChunk a (text_delta_chunk (int n) f) = Some a1"
    by (simp add: AddChunk_text_delta)
  from Cons.IH [of a1] obtain a' where
    "AddChunks a1 (map (text_delta_chunk (int n)) fragments) = Some a'"
    "content_of a' n = content_of a1 n @ concat fragments" by blast
  with a1 content_of_AddChunk_text_delta [OF a1] show ?case
    by (simp add: AddChunks_def)
qed

text \<open>
  Claim C6. For a fixed choice index, feeding a sequence of content delta events appends
  each fragment to that choice's content buffer in arrival order: the final content is
  the content before followed by the fragments concatenated. In particular the fragments
  \<open>Hello\<close>, \<open>, \<close>, \<open>world\<close> fed to a new accumulator yield exactly \<open>Hello, world\<close>.
\<close>

theorem content_deltas_append:
  "(\<exists>a'. AddChunks a (map (text_delta_chunk (int n)) fragments) = Some a' \<and>
         content_of a' n = content_of a n @ concat fragments) \<and>
   (\<exists>a'. AddChunks new_accumulator
           (map (text_delta_chunk 0) [''Hello'', '', '', ''world'']) = Some a' \<and>
         content_of a' 0 = ''Hello, world'')"
proof
  show "\<exists>a'. AddChunks a (map (text_delta_chunk (int n)) fragments) = Some a' \<and>
         content_of a' n = content_of a n @ concat fragments"
    by (rule AddChunks_text_deltas)
  have "content_of new_accumulator 0 = []"
    by (simp add: content_of_def slot_or_default_def new_accumulator_def default_choice_def)
  with AddChunks_text_deltas [of new_accumulator 0 "[''Hello'', '', '', ''world'']"]
  show "\<exists>a'. AddChunks new_accumulator
           (map (text_delta_chunk 0) [''Hello'', '', '', ''world'']) = Some a' \<and>
         content_of a' 0 = ''Hello, world''"
    by simp
qed

section \<open>Tool call reconciliation\<close>

lemma find_tool_call_Some:
  "find_tool_call tcs x = Some k \<Longrightarrow> k < length tcs \<and> tc_ID (tcs ! k) = x"
  by (induction tcs arbitrary: k) (auto split: if_splits)

lemma find_tool_call_append_new:
  "find_tool_call tcs x = None \<Longrightarrow> tc_ID d = x \<Longrightarrow>
   find_tool_call (tcs @ [d]) x = Some (length tcs)"
  by (induction tcs) (auto split: if_splits)

lemma find_tool_call_update:
  "find_tool_call tcs x = Some k \<Longrightarrow> tc_ID t = x \<Longrightarrow>
   find_tool_call (tcs[k := t]) x = Some k"
proof (induction tcs arbitrary: k)
  case Nil
  then show ?case by simp
next
  case (Cons u tcs)
  then show ?case by (cases k) (auto split: if_splits)
qed

lemma tc_ID_update_tool_call [simp]: "tc_ID (update_tool_call t d) = tc_ID t"
  by (simp add: update_tool_call_def Let_def)

lemma lookup_merge_tool_call:
  "lookup_tool_call (merge_tool_call tcs d) (tc_ID d) =
     Some (case lookup_tool_call tcs (tc_ID d) of
             None \<Rightarrow> d
           | Some t \<Rightarrow> update_tool_call t d)"
proof (cases "find_tool_call tcs (tc_ID d)")
  case None
  then show ?thesis
    by (simp add: lookup_tool_call_def merge_tool_call_def find_tool_call_append_new)
next
  case (Some k)
  from find_tool_call_Some [OF Some] have k: "k < length tcs" "tc_ID (tcs ! k) = tc_ID d"
    by simp_all
  have "find_tool_call (tcs[k := update_tool_call (tcs ! k) d]) (tc_ID d) = Some k"
    using Some k by (intro find_tool_call_update) simp_all
  with Some k show ?thesis
    by (simp add: lookup_tool_call_def merge_tool_call_def)
qed

lemma AddChunk_tool_call:
  "AddChunk a (tool_call_chunk (int n) d) =
     Some (a\<lparr>a_Choices :=
             (padded_choices (a_Choices a) n)
               [n := (slot_or_default (a_Choices a) n)
                  \<lparr>ch_ToolCalls := Some (merge_tool_call (tool_calls_of a n) d)\<rparr>]\<rparr>)"
proof -
  let ?choice = "\<lparr>sc_Index = int n,
         sc_Delta = \<lparr>d_Role = [], d_Content = [], d_ToolCalls = [d]\<rparr>,
         sc_FinishReason = []\<rparr>"
  have "AddChunk a (tool_call_chunk (int n) d) =
      Some ((store_usage a (tool_call_chunk (int n) d))\<lparr>a_Choices :=
                   (padded_choices (a_Choices a) n)
                     [n := merged_slot (slot_or_default (a_Choices a) n) ?choice]\<rparr>)"
    by (rule AddChunk_single_choice)
      (simp_all add: tool_call_chunk_def tool_call_choices_def zero_response_def)
  moreover have "merged_slot c ?choice =
      c\<lparr>ch_ToolCalls := Some (merge_tool_call (tools c) d)\<rparr>" for c
    by (cases c, cases "ch_Message c") (simp add: merged_slot_def)
  moreover have "store_usage a (tool_call_chunk (int n) d) = a"
    by (simp add: tool_call_chunk_def zero_response_def)
  ultimately show ?thesis by (simp add: tool_calls_of_def)
qed

lemma tool_calls_of_AddChunk_tool_call:
  "AddChunk a (tool_call_chunk (int n) d) = Some a' \<Longrightarrow>
   tool_calls_of a' n = merge_tool_call (tool_calls_of a n) d"
  by (auto simp: AddChunk_tool_call tool_calls_of_def slot_or_default_def)

lemma arguments_of_AddChunk:
  "\<exists>a'. AddChunk a (tool_call_chunk (int n) (arguments_tool_call x payload)) = Some a' \<and>
        arguments_of a' n x =
          Some (if payload \<noteq> [] then payload
                else (case arguments_of a n x of None \<Rightarrow> [] | Some old \<Rightarrow> old))"
proof -
  let ?d = "arguments_tool_call x payload"
  obtain a' where a': "AddChunk a (tool_call_chunk (int n) ?d) = Some a'"
    by (simp add: AddChunk_tool_call)
  have id: "tc_ID ?d = x" and args: "tc_Function_Arguments ?d = payload"
    by (simp_all add: arguments_tool_call_def zero_tool_call_def)
  have "lookup_tool_call (tool_calls_of a' n) x =
      Some (case lookup_tool_call (tool_calls_of a n) x of
              None \<Rightarrow> ?d | Some t \<Rightarrow> update_tool_call t ?d)"
    using lookup_merge_tool_call [of "tool_calls_of a n" ?d]
    by (simp add: tool_calls_of_AddChunk_tool_call [OF a'] id)
  then have "arguments_of a' n x =
      Some (if payload \<noteq> [] then payload
            else (case arguments_of a n x of None \<Rightarrow> [] | Some old \<Rightarrow> old))"
    by (auto simp: arguments_of_def arguments_tool_call_def zero_tool_call_def
        update_tool_call_def Let_def split: option.splits)
  with a' show ?thesis by blast
qed

text \<open>
  Claim C1, as amended. An event carrying a function-arguments payload for the tool call
  with identity \<open>x\<close> (a delta fragment and a done payload give the same chunk) leaves a
  slot for \<open>x\<close> whose arguments are that payload when it is non-empty: the payload
  replaces the buffer, it is not appended to it. An empty payload leaves the buffer as it
  was. In particular the deltas \<open>{"a":\<close> and \<open>1}\<close> followed by the done payload
  \<open>{"a":1}\<close> leave exactly \<open>{"a":1}\<close>.
\<close>

theorem arguments_payload_replaces:
  \<open>(\<exists>a'. AddChunk a (tool_call_chunk (int n) (arguments_tool_call x payload)) = Some a' \<and>
        arguments_of a' n x =
          Some (if payload \<noteq> [] then payload
                else (case arguments_of a n x of None \<Rightarrow> [] | Some old \<Rightarrow> old))) \<and>
   (\<exists>a'. AddChunks new_accumulator
           [tool_call_chunk 0 (arguments_tool_call ''x'' ''{"a":''),
            tool_call_chunk 0 (arguments_tool_call ''x'' ''1}''),
            tool_call_chunk 0 (arguments_tool_call ''x'' ''{"a":1}'')] = Some a' \<and>
         arguments_of a' 0 ''x'' = Some ''{"a":1}'')\<close>
proof
  show "\<exists>a'. AddChunk a (tool_call_chunk (int n) (arguments_tool_call x payload)) = Some a' \<and>
        arguments_of a' n x =
          Some (if payload \<noteq> [] then payload
                else (case arguments_of a n x of None \<Rightarrow> [] | Some old \<Rightarrow> old))"
    by (rule arguments_of_AddChunk)
  obtain a1 where a1: \<open>AddChunk new_accumulator
      (tool_call_chunk 0 (arguments_tool_call ''x'' ''{"a":'')) = Some a1\<close>
    using AddChunk_tool_call [of new_accumulator 0] by simp
  obtain a2 where a2: \<open>AddChunk a1 (tool_call_chunk 0 (arguments_tool_call ''x'' ''1}'')) = Some a2\<close>
    using AddChunk_tool_call [of a1 0] by simp
  from arguments_of_AddChunk [of a2 0 "''x''" \<open>''{"a":1}''\<close>]
  obtain a3 where \<open>AddChunk a2 (tool_call_chunk 0 (arguments_tool_call ''x'' ''{"a":1}'')) = Some a3\<close>
    \<open>arguments_of a3 0 ''x'' = Some ''{"a":1}''\<close> by auto
  with a1 a2 show \<open>\<exists>a'. AddChunks new_accumulator
           [tool_call_chunk 0 (arguments_tool_call ''x'' ''{"a":''),
            tool_call_chunk 0 (arguments_tool_call ''x'' ''1}''),
            tool_call_chunk 0 (arguments_tool_call ''x'' ''{"a":1}'')] = Some a' \<and>
         arguments_of a' 0 ''x'' = Some ''{"a":1}''\<close>
    by (simp add: AddChunks_def)
qed

text \<open>The amended claim C1 at a concrete input: a second fragment replaces the first.\<close>

theorem arguments_payload_replaces_witness:
  "\<exists>a'. AddChunk new_accumulator (tool_call_chunk 0 (arguments_tool_call ''x'' ''1}'')) = Some a' \<and>
        arguments_of a' 0 ''x'' = Some ''1}''"
  using arguments_payload_replaces [of new_accumulator 0 "''x''" "''1}''"]
  by simp

text \<open>
  The claim as stated fails: after the two deltas alone the buffer holds the second
  fragment, not the concatenation of both.
\<close>

theorem arguments_deltas_concatenate_counterexample:
  \<open>AddChunks new_accumulator
     [tool_call_chunk 0 (arguments_tool_call ''x'' ''{"a":''),
      tool_call_chunk 0 (arguments_tool_call ''x'' ''1}'')] =
   Some \<lparr>a_ID = [], a_Object = [], a_Created = 0, a_Model = [],
     a_Choices =
       [\<lparr>ch_Index = 0,
         ch_Message = \<lparr>msg_Role = ''assistant'', msg_Content = []\<rparr>,
         ch_FinishReason = [],
         ch_ToolCalls =
           Some [\<lparr>tc_ID = ''x'', tc_CallID = [], tc_Type = [],
                  tc_Function_Name = [], tc_Function_Arguments = ''1}''\<rparr>]\<rparr>],
     a_Usage = None\<rparr> \<and>
   ''1}'' \<noteq> ''{"a":'' @ ''1}''\<close>
  by code_simp

text \<open>
  Claim C4, as amended. The function name of a tool call slot is overwritten by every
  later event for the same identity that carries a non-empty name (the last non-empty
  name wins); an event with an empty name leaves it unchanged.
\<close>

theorem function_name_last_nonempty_wins:
  "\<exists>a'. AddChunk a (tool_call_chunk (int n) d) = Some a' \<and>
        name_of a' n (tc_ID d) =
          Some (if tc_Function_Name d \<noteq> [] then tc_Function_Name d
                else (case name_of a n (tc_ID d) of None \<Rightarrow> [] | Some old \<Rightarrow> old))"
proof -
  obtain a' where a': "AddChunk a (tool_call_chunk (int n) d) = Some a'"
    by (simp add: AddChunk_tool_call)
  have "lookup_tool_call (tool_calls_of a' n) (tc_ID d) =
      Some (case lookup_tool_call (tool_calls_of a n) (tc_ID d) of
              None \<Rightarrow> d | Some t \<Rightarrow> update_tool_call t d)"
    using lookup_merge_tool_call [of "tool_calls_of a n" d]
    by (simp add: tool_calls_of_AddChunk_tool_call [OF a'])
  then have "name_of a' n (tc_ID d) =
      Some (if tc_Function_Name d \<noteq> [] then tc_Function_Name d
            else (case name_of a n (tc_ID d) of None \<Rightarrow> [] | Some old \<Rightarrow> old))"
    by (auto simp: name_of_def update_tool_call_def Let_def split: option.splits)
  with a' show ?thesis by blast
qed

text \<open>The amended claim C4 at a concrete input.\<close>

theorem function_name_last_nonempty_wins_witness:
  "\<exists>a'. AddChunk new_accumulator
          (tool_call_chunk 0 (zero_tool_call\<lparr>tc_ID := ''x'', tc_Function_Name := ''f''\<rparr>)) = Some a' \<and>
        name_of a' 0 ''x'' = Some ''f''"
  using function_name_last_nonempty_wins
    [of new_accumulator 0 "zero_tool_call\<lparr>tc_ID := ''x'', tc_Function_Name := ''f''\<rparr>"]
  by simp

text \<open>
  First-write-wins fails: a slot named \<open>f\<close> by one event is renamed \<open>g\<close> by the next
  event for the same identity.
\<close>

theorem function_name_first_write_wins_counterexample:
  "AddChunks new_accumulator
     [tool_call_chunk 0
        \<lparr>tc_ID = ''x'', tc_CallID = ''c'', tc_Type = ''function'',
         tc_Function_Name = ''f'', tc_Function_Arguments = []\<rparr>,
      tool_call_chunk 0
        \<lparr>tc_ID = ''x'', tc_CallID = ''c'', tc_Type = ''function'',
         tc_Function_Name = ''g'', tc_Function_Arguments = []\<rparr>] =
   Some \<lparr>a_ID = [], a_Object = [], a_Created = 0, a_Model = [],
     a_Choices =
       [\<lparr>ch_Index = 0,
         ch_Message = \<lparr>msg_Role = ''assistant'', msg_Content = []\<rparr>,
         ch_FinishReason = [],
         ch_ToolCalls =
           Some [\<lparr>tc_ID = ''x'', tc_CallID = ''c'', tc_Type = ''function'',
                  tc_Function_Name = ''g'', tc_Function_Arguments = []\<rparr>]\<rparr>],
     a_Usage = None\<rparr>"
  by code_simp

section \<open>Index padding and totality of the merge\<close>

lemma fold_add_choice_total:
  "\<forall>choice \<in> set choices. 0 \<le> sc_Index choice \<Longrightarrow>
   \<exists>cs'. fold_option add_choice cs choices = Some cs'"
proof (induction choices arbitrary: cs)
  case Nil
  show ?case by simp
next
  case (Cons choice choices)
  then obtain cs1 where "add_choice cs choice = Some cs1"
    using add_choice_total [of choice cs] by auto
  with Cons show ?case by simp
qed

lemma AddChunk_total_nonnegative:
  "\<forall>choice \<in> set (sr_Choices c). 0 \<le> sc_Index choice \<Longrightarrow> \<exists>a'. AddChunk a c = Some a'"
  using fold_add_choice_total
    [of "sr_Choices c" "a_Choices (ensure_first_choice (store_usage (init_from_chunk a c) c) c)"]
  by (auto simp: AddChunk_def Let_def)

lemma fold_add_choice_length:
  "fold_option add_choice cs choices = Some cs' \<Longrightarrow> length cs \<le> length cs'"
proof (induction choices arbitrary: cs)
  case Nil
  then show ?case by simp
next
  case (Cons choice choices)
  from Cons.prems obtain cs1 where step: "add_choice cs choice = Some cs1"
    and rest: "fold_option add_choice cs1 choices = Some cs'"
    by (auto split: option.splits)
  from add_choice_length [OF step] Cons.IH [OF rest] show ?case by simp
qed

lemma AddChunk_never_truncates:
  assumes "a_ID a \<noteq> [] \<or> sr_ID c = []" and "AddChunk a c = Some a'"
  shows "length (a_Choices a) \<le> length (a_Choices a')"
proof -
  have init: "init_from_chunk a c = a"
    using assms(1) by (auto simp: init_from_chunk_def)
  let ?a3 = "ensure_first_choice (store_usage a c) c"
  have le: "length (a_Choices a) \<le> length (a_Choices ?a3)"
    by (simp add: ensure_first_choice_def store_usage_def)
  from assms(2) obtain cs where "fold_option add_choice (a_Choices ?a3) (sr_Choices c) = Some cs"
    and "a' = ?a3\<lparr>a_Choices := cs\<rparr>"
    by (auto simp: AddChunk_def Let_def init split: Option.bind_splits)
  with le fold_add_choice_length [of "a_Choices ?a3" "sr_Choices c" cs] show ?thesis by simp
qed

text \<open>
  Claim C5. Merging an event that references choice index \<open>n\<close> (a chunk with one choice
  and no id, as \<open>Recv\<close> builds them, lemma \<open>decode_event_shape\<close>) succeeds and extends the choice sequence with freshly
  defaulted slots until \<open>n\<close> is in range: the new length is the larger of the old length
  and \<open>n + 1\<close>, every slot but \<open>n\<close> is the old slot where there was one and the default
  slot otherwise, and slot \<open>n\<close> holds the merge of the event into the old or default
  slot. Nothing is truncated. In particular an event for index 2 fed to a new accumulator
  yields three slots, of which slots 0 and 1 have empty content, empty finish reason and
  role \<open>assistant\<close>.
\<close>

theorem index_padding:
  assumes "a_ID a \<noteq> [] \<or> sr_ID c = []" and "sr_Choices c = [choice]"
    and "sc_Index choice = int n"
  shows "\<exists>a'. AddChunk a c = Some a' \<and>
           length (a_Choices a') = max (length (a_Choices a)) (Suc n) \<and>
           (\<forall>j < length (a_Choices a').
              a_Choices a' ! j =
                (if j = n then merged_slot (slot_or_default (a_Choices a) n) choice
                 else slot_or_default (a_Choices a) j)) \<and>
           (a_Choices a = [] \<and> n = 2 \<longrightarrow>
              length (a_Choices a') = 3 \<and>
              (\<forall>j < 2. msg_Content (ch_Message (a_Choices a' ! j)) = [] \<and>
                       ch_FinishReason (a_Choices a' ! j) = [] \<and>
                       msg_Role (ch_Message (a_Choices a' ! j)) = ''assistant''))"
proof -
  let ?cs = "(padded_choices (a_Choices a) n)
               [n := merged_slot (slot_or_default (a_Choices a) n) choice]"
  have eq: "AddChunk a c = Some ((store_usage a c)\<lparr>a_Choices := ?cs\<rparr>)"
    by (rule AddChunk_single_choice [OF assms])
  have len: "length ?cs = max (length (a_Choices a)) (Suc n)" by simp
  have nth: "?cs ! j =
      (if j = n then merged_slot (slot_or_default (a_Choices a) n) choice
       else slot_or_default (a_Choices a) j)" if "j < length ?cs" for j
    using that by (simp add: nth_list_update)
  have part: "msg_Content (ch_Message (?cs ! j)) = [] \<and> ch_FinishReason (?cs ! j) = [] \<and>
      msg_Role (ch_Message (?cs ! j)) = ''assistant''"
    if "a_Choices a = []" "n = 2" "j < 2" for j
    using that nth [of j] by (simp add: slot_or_default_def default_choice_def)
  show ?thesis
    unfolding eq using len nth part by auto
qed

text \<open>Claim C5 at the concrete event: index 2 on a new accumulator.\<close>

theorem index_padding_witness:
  "\<exists>a'. AddChunk new_accumulator (tool_call_chunk 2 zero_tool_call) = Some a' \<and>
        length (a_Choices a') = 3 \<and>
        a_Choices a' ! 0 = default_choice 0 \<and> a_Choices a' ! 1 = default_choice 1"
proof -
  let ?choice = "\<lparr>sc_Index = 2,
         sc_Delta = \<lparr>d_Role = [], d_Content = [], d_ToolCalls = [zero_tool_call]\<rparr>,
         sc_FinishReason = []\<rparr>"
  have "a_ID new_accumulator \<noteq> [] \<or> sr_ID (tool_call_chunk 2 zero_tool_call) = []"
    by (simp add: tool_call_chunk_def zero_response_def)
  moreover have "sr_Choices (tool_call_chunk 2 zero_tool_call) = [?choice]"
    by (simp add: tool_call_chunk_def tool_call_choices_def zero_response_def)
  moreover have "sc_Index ?choice = int 2" by simp
  ultimately obtain a' where a': "AddChunk new_accumulator (tool_call_chunk 2 zero_tool_call) = Some a'"
      "length (a_Choices a') = max (length (a_Choices new_accumulator)) (Suc 2)"
      "\<forall>j < length (a_Choices a').
              a_Choices a' ! j =
                (if j = 2 then merged_slot (slot_or_default (a_Choices new_accumulator) 2) ?choice
                 else slot_or_default (a_Choices new_accumulator) j)"
    using index_padding [of new_accumulator "tool_call_chunk 2 zero_tool_call" ?choice 2]
    by blast
  have len: "length (a_Choices a') = 3"
    using a'(2) by (simp add: new_accumulator_def)
  have "a_Choices a' ! 0 = default_choice 0" "a_Choices a' ! 1 = default_choice 1"
    using a'(3) len by (simp_all add: slot_or_default_def new_accumulator_def)
  with a'(1) len show ?thesis by simp
qed

lemma AddChunk_tool_call_negative:
  assumes "idx < 0"
  shows "AddChunk a (tool_call_chunk idx d) = None"
proof -
  have "add_choice cs
      \<lparr>sc_Index = idx, sc_Delta = \<lparr>d_Role = [], d_Content = [], d_ToolCalls = [d]\<rparr>,
       sc_FinishReason = []\<rparr> = None" for cs
    using assms
    by (simp add: add_choice_def Let_def pad_choices_negative add_tool_call_def
        update_choice_negative)
  then show ?thesis
    by (simp add: AddChunk_def Let_def tool_call_chunk_def tool_call_choices_def zero_response_def)
qed

text \<open>
  Claim C2 fails on the code. The frame
  \<open>data: {"type":"response.tool_call.created","output_index":-1}\<close> is returned by \<open>Recv\<close>
  without error, as a chunk whose only choice has index \<open>-1\<close> and one tool call; merging
  that chunk indexes \<open>a.Choices[-1]\<close> and panics. Chunks whose choice indices are all
  non-negative always merge (lemma \<open>AddChunk_total_nonnegative\<close>).
\<close>

theorem AddChunk_panics_on_negative_index:
  \<open>Recv (unmarshal_table
           [(''{"type":"response.tool_call.created","output_index":-1}'',
             [(''type'', JString ''response.tool_call.created''),
              (''output_index'', JNumber (- 1))])])
     \<lparr>reader = [''data: {"type":"response.tool_call.created","output_index":-1}'' @ [CHR 0x0A]],
      reader_failure = None, err = None\<rparr> =
     (Inr (tool_call_chunk (- 1) zero_tool_call),
      \<lparr>reader = [], reader_failure = None, err = None\<rparr>) \<and>
   AddChunk new_accumulator (tool_call_chunk (- 1) zero_tool_call) = None\<close>
proof -
  let ?data = \<open>''{"type":"response.tool_call.created","output_index":-1}''\<close>
  let ?event = "[(''type'', JString ''response.tool_call.created''), (''output_index'', JNumber (- 1))]"
  let ?s = "\<lparr>reader = [''data: '' @ ?data @ [CHR 0x0A]], reader_failure = None, err = None\<rparr>"
  have "int_of_float64 (- 1) = - 1"
    using int_of_float64_of_int [of "- 1"] by simp
  then have dec: "decode_event ?event = (tool_call_chunk (- 1) zero_tool_call, False)"
    by (simp add: decode_event_def string_or_zero_def tool_call_chunk_def)
  have useful: "\<not> no_useful_data (tool_call_chunk (- 1) zero_tool_call)"
    by (simp add: no_useful_data_def tool_call_chunk_def tool_call_choices_def zero_response_def)
  have trim: "TrimSpace (''data: '' @ ?data @ [CHR 0x0A]) = data_prefix @ ?data"
    by (simp add: TrimSpace_def isSpace_def data_prefix_def)
  have parse: "unmarshal_table [(?data, ?event)] ?data = Inr ?event"
    by (simp add: unmarshal_table_def)
  have "Recv (unmarshal_table [(?data, ?event)]) ?s =
      (Inr (tool_call_chunk (- 1) zero_tool_call),
       \<lparr>reader = [], reader_failure = None, err = None\<rparr>)"
    using Recv_data_line [of ?s "''data: '' @ ?data @ [CHR 0x0A]" "[]" ?data
        "unmarshal_table [(?data, ?event)]", OF _ _ trim] parse dec useful
    by simp
  moreover have "AddChunk new_accumulator (tool_call_chunk (- 1) zero_tool_call) = None"
    by (rule AddChunk_tool_call_negative) simp
  ultimately show ?thesis by simp
qed

section \<open>The scalar identity fields\<close>

lemma AddChunk_scalar_fields:
  assumes "AddChunk a c = Some a'"
  shows "a_ID a' = a_ID (init_from_chunk a c)" "a_Object a' = a_Object (init_from_chunk a c)"
    "a_Created a' = a_Created (init_from_chunk a c)" "a_Model a' = a_Model (init_from_chunk a c)"
proof -
  from assms obtain cs where
    "a' = (ensure_first_choice (store_usage (init_from_chunk a c) c) c)\<lparr>a_Choices := cs\<rparr>"
    by (auto simp: AddChunk_def Let_def split: Option.bind_splits)
  then show "a_ID a' = a_ID (init_from_chunk a c)" "a_Object a' = a_Object (init_from_chunk a c)"
    "a_Created a' = a_Created (init_from_chunk a c)" "a_Model a' = a_Model (init_from_chunk a c)"
    by (simp_all add: ensure_first_choice_def store_usage_def)
qed

lemma AddChunk_identity:
  assumes "a_ID a \<noteq> []" and "AddChunk a c = Some a'"
  shows "a_ID a' = a_ID a \<and> a_Object a' = a_Object a \<and> a_Created a' = a_Created a \<and>
         a_Model a' = a_Model a"
proof -
  have "init_from_chunk a c = a"
    using assms(1) by (simp add: init_from_chunk_def)
  with AddChunk_scalar_fields [OF assms(2)] show ?thesis by simp
qed

lemma AddChunk_sets_identity:
  assumes "a_ID a = []" and "sr_ID c \<noteq> []" and "AddChunk a c = Some a'"
  shows "a_ID a' = sr_ID c \<and> a_Object a' = sr_Object c \<and> a_Created a' = sr_Created c \<and>
         a_Model a' = sr_Model c"
proof -
  have "a_ID (init_from_chunk a c) = sr_ID c" "a_Object (init_from_chunk a c) = sr_Object c"
    "a_Created (init_from_chunk a c) = sr_Created c" "a_Model (init_from_chunk a c) = sr_Model c"
    unfolding init_from_chunk_def using assms(1,2) by simp_all
  with AddChunk_scalar_fields [OF assms(3)] show ?thesis by simp
qed

lemma fold_option_append:
  "fold_option f s (xs @ ys) =
     (case fold_option f s xs of None \<Rightarrow> None | Some s' \<Rightarrow> fold_option f s' ys)"
  by (induction xs arbitrary: s) (auto split: option.splits)

lemma AddChunks_identity:
  "a_ID a \<noteq> [] \<Longrightarrow> AddChunks a chunks = Some a' \<Longrightarrow>
   a_ID a' = a_ID a \<and> a_Object a' = a_Object a \<and> a_Created a' = a_Created a \<and>
   a_Model a' = a_Model a"
proof (induction chunks arbitrary: a)
  case Nil
  then show ?case by (simp add: AddChunks_def)
next
  case (Cons c chunks)
  from Cons.prems(2) obtain a1 where step: "AddChunk a c = Some a1"
    and rest: "AddChunks a1 chunks = Some a'"
    by (auto simp: AddChunks_def split: option.splits)
  from AddChunk_identity [OF Cons.prems(1) step] have same: "a_ID a1 = a_ID a"
    "a_Object a1 = a_Object a" "a_Created a1 = a_Created a" "a_Model a1 = a_Model a"
    by simp_all
  with Cons.prems(1) have "a_ID a1 \<noteq> []" by simp
  from Cons.IH [OF this rest] same show ?case by simp
qed

text \<open>
  Claim C3. The first event with a non-empty id that reaches an accumulator without one
  sets id, object, created and model from that event. Once the events fed so far have
  left a non-empty id, feeding any further events changes none of the four fields, and
  the documents materialized before and after carry the same four values.
\<close>

theorem identity_fields_first_write_wins:
  "(a_ID a = [] \<and> sr_ID c \<noteq> [] \<and> AddChunk a c = Some a1 \<longrightarrow>
      a_ID a1 = sr_ID c \<and> a_Object a1 = sr_Object c \<and> a_Created a1 = sr_Created c \<and>
      a_Model a1 = sr_Model c) \<and>
   (AddChunks a0 events = Some a2 \<and> a_ID a2 \<noteq> [] \<and> AddChunks a0 (events @ later) = Some a3 \<longrightarrow>
      a_ID a3 = a_ID a2 \<and> a_Object a3 = a_Object a2 \<and> a_Created a3 = a_Created a2 \<and>
      a_Model a3 = a_Model a2 \<and>
      r_ID (fst (ToResponse a3)) = r_ID (fst (ToResponse a2)) \<and>
      r_Object (fst (ToResponse a3)) = r_Object (fst (ToResponse a2)) \<and>
      r_Created (fst (ToResponse a3)) = r_Created (fst (ToResponse a2)) \<and>
      r_Model (fst (ToResponse a3)) = r_Model (fst (ToResponse a2)))"
proof (rule conjI; rule impI)
  assume "a_ID a = [] \<and> sr_ID c \<noteq> [] \<and> AddChunk a c = Some a1"
  then show "a_ID a1 = sr_ID c \<and> a_Object a1 = sr_Object c \<and> a_Created a1 = sr_Created c \<and>
      a_Model a1 = sr_Model c"
    using AddChunk_sets_identity [of a c a1] by blast
next
  assume h: "AddChunks a0 events = Some a2 \<and> a_ID a2 \<noteq> [] \<and>
    AddChunks a0 (events @ later) = Some a3"
  then have id: "a_ID a2 \<noteq> []" by blast
  from h have rest: "AddChunks a2 later = Some a3"
    by (auto simp: AddChunks_def fold_option_append)
  note same = AddChunks_identity [OF id rest]
  have doc: "r_ID (fst (ToResponse x)) = a_ID x" "r_Object (fst (ToResponse x)) = a_Object x"
    "r_Created (fst (ToResponse x)) = a_Created x" "r_Model (fst (ToResponse x)) = a_Model x"
    for x
    by (simp_all add: ToResponse_def)
  from same show "a_ID a3 = a_ID a2 \<and> a_Object a3 = a_Object a2 \<and> a_Created a3 = a_Created a2 \<and>
      a_Model a3 = a_Model a2 \<and>
      r_ID (fst (ToResponse a3)) = r_ID (fst (ToResponse a2)) \<and>
      r_Object (fst (ToResponse a3)) = r_Object (fst (ToResponse a2)) \<and>
      r_Created (fst (ToResponse a3)) = r_Created (fst (ToResponse a2)) \<and>
      r_Model (fst (ToResponse a3)) = r_Model (fst (ToResponse a2))"
    unfolding doc by blast
qed

text \<open>Claim C3 at a concrete stream: an id event, a text delta, then an event with
  another id; the first id and model stay.\<close>

theorem identity_fields_first_write_wins_witness:
  "a_ID (the (AddChunks new_accumulator
      ([zero_response\<lparr>sr_ID := ''resp_1'', sr_Model := ''gpt-4o''\<rparr>] @
       [text_delta_chunk 0 ''hi'', zero_response\<lparr>sr_ID := ''resp_2'', sr_Model := ''other''\<rparr>]))) =
     ''resp_1'' \<and>
   a_Model (the (AddChunks new_accumulator
      ([zero_response\<lparr>sr_ID := ''resp_1'', sr_Model := ''gpt-4o''\<rparr>] @
       [text_delta_chunk 0 ''hi'', zero_response\<lparr>sr_ID := ''resp_2'', sr_Model := ''other''\<rparr>]))) =
     ''gpt-4o''"
proof -
  let ?c1 = "zero_response\<lparr>sr_ID := ''resp_1'', sr_Model := ''gpt-4o''\<rparr>"
  let ?later = "[text_delta_chunk 0 ''hi'', zero_response\<lparr>sr_ID := ''resp_2'', sr_Model := ''other''\<rparr>]"
  let ?a2 = "\<lparr>a_ID = ''resp_1'', a_Object = [], a_Created = 0, a_Model = ''gpt-4o'',
              a_Choices = [default_choice 0], a_Usage = None\<rparr>"
  have first: "AddChunks new_accumulator [?c1] = Some ?a2"
    by code_simp
  have all: "AddChunks new_accumulator ([?c1] @ ?later) =
      Some (the (AddChunks new_accumulator ([?c1] @ ?later)))"
    by code_simp
  have "a_ID ?a2 \<noteq> []" by simp
  with first all identity_fields_first_write_wins
    [of _ _ _ new_accumulator "[?c1]" ?a2 ?later "the (AddChunks new_accumulator ([?c1] @ ?later))"]
  show ?thesis by simp
qed

section \<open>Materializing\<close>

text \<open>
  Claim C9. \<open>ToResponse\<close> leaves the accumulator as it found it; called again on that
  accumulator it returns an equal document; the document copies the scalar fields, the
  usage and, choice by choice, index, message and finish reason; and a choice of the
  document carries a tool call list only when the accumulated list is non-empty (an
  empty or \<open>nil\<close> list is left \<open>nil\<close>).
\<close>

theorem ToResponse_pure_projection:
  "snd (ToResponse a) = a \<and>
   fst (ToResponse (snd (ToResponse a))) = fst (ToResponse a) \<and>
   r_ID (fst (ToResponse a)) = a_ID a \<and> r_Object (fst (ToResponse a)) = a_Object a \<and>
   r_Created (fst (ToResponse a)) = a_Created a \<and> r_Model (fst (ToResponse a)) = a_Model a \<and>
   r_Usage (fst (ToResponse a)) = a_Usage a \<and>
   length (r_Choices (fst (ToResponse a))) = length (a_Choices a) \<and>
   (\<forall>i < length (a_Choices a).
      ch_Index (r_Choices (fst (ToResponse a)) ! i) = ch_Index (a_Choices a ! i) \<and>
      ch_Message (r_Choices (fst (ToResponse a)) ! i) = ch_Message (a_Choices a ! i) \<and>
      ch_FinishReason (r_Choices (fst (ToResponse a)) ! i) = ch_FinishReason (a_Choices a ! i) \<and>
      ch_ToolCalls (r_Choices (fst (ToResponse a)) ! i) =
        (if tools (a_Choices a ! i) \<noteq> [] then ch_ToolCalls (a_Choices a ! i) else None))"
  by (simp add: ToResponse_def tools_def)

text \<open>Claim C9 at an accumulator with one non-empty and one empty tool call list.\<close>

theorem ToResponse_pure_projection_witness:
  "ch_ToolCalls (r_Choices (fst (ToResponse
      (new_accumulator\<lparr>a_Choices :=
         [(default_choice 0)\<lparr>ch_ToolCalls := Some [zero_tool_call]\<rparr>,
          (default_choice 1)\<lparr>ch_ToolCalls := Some []\<rparr>]\<rparr>))) ! 0) = Some [zero_tool_call] \<and>
   ch_ToolCalls (r_Choices (fst (ToResponse
      (new_accumulator\<lparr>a_Choices :=
         [(default_choice 0)\<lparr>ch_ToolCalls := Some [zero_tool_call]\<rparr>,
          (default_choice 1)\<lparr>ch_ToolCalls := Some []\<rparr>]\<rparr>))) ! 1) = None"
  using ToResponse_pure_projection
    [of "new_accumulator\<lparr>a_Choices :=
         [(default_choice 0)\<lparr>ch_ToolCalls := Some [zero_tool_call]\<rparr>,
          (default_choice 1)\<lparr>ch_ToolCalls := Some []\<rparr>]\<rparr>"]
  by (simp add: tools_def)

section \<open>End of stream, terminal events and skipped frames\<close>

text \<open>
  Claim C8. When the next line read is, after trimming, exactly \<open>data: [DONE]\<close>, \<open>Recv\<close>
  returns \<open>io.EOF\<close> and records it; \<open>Err\<close> then reports no error; a further \<open>Recv\<close>
  returns \<open>io.EOF\<close> again and reads nothing (the lines after the sentinel stay unread).
  This is the outcome of reaching the end of the data: there too \<open>Recv\<close> returns
  \<open>io.EOF\<close>, records it, and \<open>Err\<close> reports no error.
\<close>

theorem done_sentinel_ends_stream:
  assumes "err s = None" and "reader s = l # ls" and "TrimSpace l = ''data: [DONE]''"
  shows "Recv unmarshal s = (Inl EOF, s\<lparr>reader := ls, err := Some EOF\<rparr>) \<and>
         Err (s\<lparr>reader := ls, err := Some EOF\<rparr>) = None \<and>
         Recv unmarshal (s\<lparr>reader := ls, err := Some EOF\<rparr>) =
           (Inl EOF, s\<lparr>reader := ls, err := Some EOF\<rparr>) \<and>
         (reader_failure s = None \<longrightarrow>
            Recv unmarshal (s\<lparr>reader := []\<rparr>) = (Inl EOF, s\<lparr>reader := [], err := Some EOF\<rparr>) \<and>
            Err (s\<lparr>reader := [], err := Some EOF\<rparr>) = None)"
proof -
  have line: "TrimSpace l = data_prefix @ ''[DONE]''"
    using assms(3) by (simp add: data_prefix_def)
  have "Recv unmarshal s = (Inl EOF, s\<lparr>reader := ls, err := Some EOF\<rparr>)"
    using Recv_data_line [OF assms(1,2) line] by simp
  moreover have "Recv unmarshal (s\<lparr>reader := ls, err := Some EOF\<rparr>) =
           (Inl EOF, s\<lparr>reader := ls, err := Some EOF\<rparr>)"
    by (rule Recv_after_error) simp
  moreover have "Recv unmarshal (s\<lparr>reader := []\<rparr>) = (Inl EOF, s\<lparr>reader := [], err := Some EOF\<rparr>)"
    if "reader_failure s = None"
    using Recv_end_of_data [of "s\<lparr>reader := []\<rparr>" unmarshal] assms(1) that by simp
  ultimately show ?thesis by (simp add: Err_def)
qed

text \<open>Claim C8 on a stream whose first line is the sentinel, followed by another frame.\<close>

theorem done_sentinel_ends_stream_witness:
  "Recv (unmarshal_table [])
     \<lparr>reader = [''data: [DONE]'' @ [CHR 0x0A], ''data: {}'' @ [CHR 0x0A]],
      reader_failure = None, err = None\<rparr> =
   (Inl EOF,
    \<lparr>reader = [''data: {}'' @ [CHR 0x0A]], reader_failure = None, err = Some EOF\<rparr>)"
proof -
  have "TrimSpace (''data: [DONE]'' @ [CHR 0x0A]) = ''data: [DONE]''"
    by (simp add: TrimSpace_def isSpace_def)
  from done_sentinel_ends_stream [of
      "\<lparr>reader = [''data: [DONE]'' @ [CHR 0x0A], ''data: {}'' @ [CHR 0x0A]],
        reader_failure = None, err = None\<rparr>"
      "''data: [DONE]'' @ [CHR 0x0A]" "[''data: {}'' @ [CHR 0x0A]]" "unmarshal_table []",
      OF _ _ this]
  show ?thesis by simp
qed






end
